theory Spec2Isabelle
  imports Complex_Main "HOL-Library.Sublist"
begin

section \<open>Python primitives used by the grading engine\<close>

text \<open>
  The engine (\<^verbatim>\<open>grading_engine.py\<close>) computes points with Python floats and
  \<^verbatim>\<open>round(x, n)\<close>. Points are modelled by exact rationals and \<^verbatim>\<open>round\<close> by
  rounding to the nearest multiple of \<open>10\<^sup>-\<^sup>n\<close>, ties to the even neighbour, which is
  what Python does on the exact value of its argument. Text is ASCII: a \<open>string\<close> is a
  list of bytes, and case folding and whitespace are those of ASCII.
\<close>

type_synonym pyfloat = rat

definition round_half_even :: "rat \<Rightarrow> int" where
  "round_half_even s =
     (let f = \<lfloor>s\<rfloor>; d = s - of_int f
      in if d < 1 / 2 then f
         else if 1 / 2 < d then f + 1
         else if even f then f else f + 1)"

definition py_round :: "pyfloat \<Rightarrow> nat \<Rightarrow> pyfloat" where
  "py_round x ndigits = of_int (round_half_even (x * 10 ^ ndigits)) / 10 ^ ndigits"

definition is_space :: "char \<Rightarrow> bool" where
  "is_space c = (c \<in> set [CHR 0x20, CHR 0x09, CHR 0x0A, CHR 0x0D, CHR 0x0B, CHR 0x0C,
                          CHR 0x1C, CHR 0x1D, CHR 0x1E, CHR 0x1F])"

definition is_digit :: "char \<Rightarrow> bool" where
  "is_digit c = (c \<in> set ''0123456789'')"

definition lower_char :: "char \<Rightarrow> char" where
  "lower_char c =
     (case map_of (zip ''ABCDEFGHIJKLMNOPQRSTUVWXYZ'' ''abcdefghijklmnopqrstuvwxyz'') c of
        Some d \<Rightarrow> d | None \<Rightarrow> c)"

definition lower :: "string \<Rightarrow> string" where
  "lower s = map lower_char s"

definition lstrip :: "string \<Rightarrow> string" where
  "lstrip s = dropWhile is_space s"

definition rstrip :: "string \<Rightarrow> string" where
  "rstrip s = rev (dropWhile is_space (rev s))"

definition strip :: "string \<Rightarrow> string" where
  "strip s = rstrip (lstrip s)"

text \<open>\<^verbatim>\<open>s.startswith(p)\<close>, \<^verbatim>\<open>s.endswith(p)\<close> and \<^verbatim>\<open>sub in s\<close>.\<close>

fun startswith :: "'a list \<Rightarrow> 'a list \<Rightarrow> bool" where
  "startswith s [] = True"
| "startswith [] (p # ps) = False"
| "startswith (c # cs) (p # ps) = (c = p \<and> startswith cs ps)"

definition endswith :: "'a list \<Rightarrow> 'a list \<Rightarrow> bool" where
  "endswith s p = startswith (rev s) (rev p)"

fun contains :: "'a list \<Rightarrow> 'a list \<Rightarrow> bool" where
  "contains [] sub = (sub = [])"
| "contains (c # cs) sub = (startswith (c # cs) sub \<or> contains cs sub)"

section \<open>Data model\<close>

record FileMatch =
  expected_name :: string
  actual_filename :: string
  match_type :: string
  issue :: string

record ZipNaming =
  original_filename :: string
  is_correct :: bool
  expected_pattern :: string
  zn_issue :: string

record ChipResult =
  name :: string
  passed :: bool
  points :: pyfloat
  max_points :: pyfloat
  error_type :: string
  error_msg :: string
  fail_line :: nat
  expected :: string
  actual :: string
  total_tests :: nat
  passed_tests :: nat

record GradingResult =
  student_name :: string
  user_id :: int
  project_num :: int
  chips :: "ChipResult list"
  total_earned :: pyfloat
  total_possible :: pyfloat
  warnings :: "string list"
  file_matches :: "FileMatch list"
  extra_files :: "string list"
  zip_naming :: "ZipNaming option"


section \<open>Partial credit from the comparison trace\<close>

text \<open>
  A trace file of the sandbox as \<^verbatim>\<open>_partial_credit\<close> sees it: absent
  (\<^verbatim>\<open>os.path.exists\<close> is false), present but \<^verbatim>\<open>read_text\<close> raises (with the
  message of the exception), or read and split into lines by \<^verbatim>\<open>splitlines\<close>.
\<close>

datatype trace_file = Missing | Unreadable string | Content "string list"

type_synonym credit = "pyfloat \<times> nat \<times> nat \<times> nat \<times> string \<times> string"

definition no_credit :: credit where
  "no_credit = (0, 0, 0, 0, '''', '''')"

text \<open>One iteration of the loop over \<^verbatim>\<open>range(1, len(cmp))\<close>; the loop state is
  \<^verbatim>\<open>(passed, fl, fe, fa)\<close> (\<open>passed\<close> is written \<open>npassed\<close>).\<close>

definition pc_line :: "string list \<Rightarrow> nat \<Rightarrow> string" where
  "pc_line ls i = (if i < length ls then strip (ls ! i) else '''')"

definition pc_step ::
  "string list \<Rightarrow> string list \<Rightarrow> nat \<times> nat \<times> string \<times> string \<Rightarrow> nat
     \<Rightarrow> nat \<times> nat \<times> string \<times> string" where
  "pc_step cmp out st i =
     (case st of (npassed, fl, fe, fa) \<Rightarrow>
        let c = pc_line cmp i; o' = pc_line out i
        in if c = o' then (npassed + 1, fl, fe, fa)
           else if fl = 0 then (npassed, i, c, o')
           else (npassed, fl, fe, fa))"

definition partial_credit :: "trace_file \<Rightarrow> trace_file \<Rightarrow> pyfloat \<Rightarrow> credit" where
  "partial_credit cmp_f out_f max_pts =
     (case cmp_f of
        Content cmp \<Rightarrow>
          (case out_f of
             Content out \<Rightarrow>
               if length cmp < 2 then no_credit
               else
                 let total = length cmp - 1;
                     (npassed, fl, fe, fa) =
                        foldl (pc_step cmp out) (0, 0, '''', '''') [1..<length cmp];
                     pts = (if total \<noteq> 0
                            then py_round (max_pts * of_nat npassed / of_nat total) 2
                            else 0)
                 in (pts, npassed, total, fl, fe, fa)
           | _ \<Rightarrow> no_credit)
      | _ \<Rightarrow> no_credit)"

section \<open>More string primitives\<close>

text \<open>\<^verbatim>\<open>s.split()\<close>: the maximal runs of non-whitespace characters.\<close>

fun split_ws_from :: "string \<Rightarrow> string \<Rightarrow> string list" where
  "split_ws_from cur [] = (if cur = [] then [] else [cur])"
| "split_ws_from cur (c # cs) =
     (if is_space c then (if cur = [] then split_ws_from [] cs else cur # split_ws_from [] cs)
      else split_ws_from (cur @ [c]) cs)"

definition split_ws :: "string \<Rightarrow> string list" where
  "split_ws s = split_ws_from [] s"

text \<open>\<^verbatim>\<open>s.split(sep)\<close> for a one-character separator, and \<^verbatim>\<open>sep.join(xs)\<close>.\<close>

fun split_on_from :: "char \<Rightarrow> string \<Rightarrow> string \<Rightarrow> string list" where
  "split_on_from sep cur [] = [cur]"
| "split_on_from sep cur (c # cs) =
     (if c = sep then cur # split_on_from sep [] cs else split_on_from sep (cur @ [c]) cs)"

definition split_on :: "char \<Rightarrow> string \<Rightarrow> string list" where
  "split_on sep s = split_on_from sep [] s"

fun join :: "string \<Rightarrow> string list \<Rightarrow> string" where
  "join sep [] = []"
| "join sep [x] = x"
| "join sep (x # y # ys) = x @ sep @ join sep (y # ys)"

text \<open>\<^verbatim>\<open>str(n)\<close> of an integer, as an f-string prints it.\<close>

definition digit_char :: "nat \<Rightarrow> char" where
  "digit_char d = ''0123456789'' ! d"

fun show_nat :: "nat \<Rightarrow> string" where
  "show_nat n = (if n < 10 then [digit_char n] else show_nat (n div 10) @ [digit_char (n mod 10)])"

declare show_nat.simps [simp del]

definition show_int :: "int \<Rightarrow> string" where
  "show_int i = (if i < 0 then ''-'' @ show_nat (nat (- i)) else show_nat (nat i))"

definition quote :: string where
  "quote = [CHR 0x27]"

text \<open>A Python dictionary built by successive stores: the last store of a key wins.\<close>

definition dict_of :: "('k \<times> 'v) list \<Rightarrow> 'k \<rightharpoonup> 'v" where
  "dict_of kvs = map_of (rev kvs)"

section \<open>Configuration (\<^verbatim>\<open>config.py\<close>)\<close>

datatype py_exn = ValueError string | KeyError string | OSError string | RuntimeError string

text \<open>An entry of \<^verbatim>\<open>PROJECTS\<close>; the keys of the Python dictionary are the field names
  without the prefix \<open>p_\<close>.\<close>

record project_def =
  p_name :: string
  p_simulator :: string
  p_file_ext :: string
  p_test_dir :: string
  p_zip_pattern :: string
  p_chips :: "(string \<times> pyfloat) list"
  p_deps :: "(string \<times> string list) list"

text \<open>The dictionary \<^verbatim>\<open>get_project\<close> returns: the entry and its computed fields.\<close>

record project = project_def +
  p_number :: int
  p_chip_names :: "string list"
  p_chip_points :: "string \<rightharpoonup> pyfloat"
  p_total_points :: pyfloat

definition PROJECTS :: "(int \<times> project_def) list" where
  "PROJECTS =
    [(1, \<lparr>p_name = ''Logic Gates'', p_simulator = ''HardwareSimulator'', p_file_ext = ''.hdl'',
          p_test_dir = ''project01'', p_zip_pattern = ''HW1_Gates_'' @ [CHR 0x5C] @ ''w+'',
          p_chips = [(''Not'', 65 / 100), (''And'', 65 / 100), (''Or'', 65 / 100),
            (''Xor'', 65 / 100), (''Mux'', 65 / 100), (''DMux'', 65 / 100),
            (''Not16'', 65 / 100), (''And16'', 65 / 100), (''Or16'', 65 / 100),
            (''Mux16'', 65 / 100), (''Or8Way'', 70 / 100), (''Mux4Way16'', 65 / 100),
            (''Mux8Way16'', 75 / 100), (''DMux4Way'', 65 / 100), (''DMux8Way'', 75 / 100)],
          p_deps = [(''Not'', []), (''And'', [''Not'']), (''Or'', [''Not'']),
            (''Xor'', [''Not'', ''And'', ''Or'']), (''Mux'', [''Not'', ''And'', ''Or'']),
            (''DMux'', [''Not'', ''And'']), (''Not16'', [''Not'']), (''And16'', [''And'']),
            (''Or16'', [''Or'']), (''Mux16'', [''Mux'']), (''Or8Way'', [''Or'']),
            (''Mux4Way16'', [''Mux16'']), (''Mux8Way16'', [''Mux4Way16'', ''Mux16'']),
            (''DMux4Way'', [''DMux'']), (''DMux8Way'', [''DMux4Way'', ''DMux''])]\<rparr>),
     (2, \<lparr>p_name = ''ALU'', p_simulator = ''HardwareSimulator'', p_file_ext = ''.hdl'',
          p_test_dir = ''project02'', p_zip_pattern = ''HW2_ALU_'' @ [CHR 0x5C] @ ''w+'',
          p_chips = [(''HalfAdder'', 80 / 100), (''FullAdder'', 80 / 100), (''Add16'', 80 / 100),
            (''Inc16'', 80 / 100), (''ALU'', 3), (''ALU-nostat'', 380 / 100)],
          p_deps = [(''HalfAdder'', []), (''FullAdder'', [''HalfAdder'']),
            (''Add16'', [''HalfAdder'', ''FullAdder'']), (''Inc16'', [''Add16'']),
            (''ALU'', [''Add16'', ''Inc16'']), (''ALU-nostat'', [''Add16'', ''Inc16''])]\<rparr>),
     (3, \<lparr>p_name = ''Memory'', p_simulator = ''HardwareSimulator'', p_file_ext = ''.hdl'',
          p_test_dir = ''project03'', p_zip_pattern = ''HW3_Memory_'' @ [CHR 0x5C] @ ''w+'',
          p_chips = [(''Bit'', 1), (''Register'', 1), (''RAM8'', 150 / 100), (''RAM64'', 150 / 100),
            (''RAM512'', 150 / 100), (''RAM4K'', 150 / 100), (''RAM16K'', 1), (''PC'', 1)],
          p_deps = [(''Bit'', []), (''Register'', [''Bit'']), (''RAM8'', [''Register'']),
            (''RAM64'', [''RAM8'']), (''RAM512'', [''RAM64'']), (''RAM4K'', [''RAM512'']),
            (''RAM16K'', [''RAM4K'']), (''PC'', [''Register''])]\<rparr>),
     (4, \<lparr>p_name = ''Machine Language'', p_simulator = ''CPUEmulator'', p_file_ext = ''.asm'',
          p_test_dir = ''project04'', p_zip_pattern = ''HW4_Assembly_'' @ [CHR 0x5C] @ ''w+'',
          p_chips = [(''Mult'', 5), (''Fill'', 5)],
          p_deps = [(''Mult'', []), (''Fill'', [])]\<rparr>),
     (5, \<lparr>p_name = ''Computer Architecture'', p_simulator = ''HardwareSimulator'',
          p_file_ext = ''.hdl'', p_test_dir = ''project05'',
          p_zip_pattern = ''HW5_Computer_'' @ [CHR 0x5C] @ ''w+'',
          p_chips = [(''Memory'', 3), (''CPU'', 4), (''Computer'', 3)],
          p_deps = [(''Memory'', []), (''CPU'', []), (''Computer'', [''Memory'', ''CPU''])]\<rparr>)]"

text \<open>
  \<^verbatim>\<open>get_project(project_num)\<close>. The argument is \<open>None\<close> or an integer;
  \<^verbatim>\<open>project_num or ACTIVE_PROJECT\<close> replaces \<open>None\<close> and \<open>0\<close> by the active project, which
  the process environment fixes and the model takes as the parameter \<open>active\<close>.
\<close>

definition get_project :: "int \<Rightarrow> int option \<Rightarrow> py_exn + project" where
  "get_project active pn =
     (let num = (case pn of None \<Rightarrow> active | Some n \<Rightarrow> if n = 0 then active else n)
      in case map_of PROJECTS num of
           None \<Rightarrow> Inl (ValueError (''Project '' @ show_int num @ '' not defined''))
         | Some d \<Rightarrow>
             Inr (project_def.extend d
                    \<lparr>p_number = num,
                     p_chip_names = map fst (p_chips d),
                     p_chip_points = dict_of (p_chips d),
                     p_total_points = py_round (sum_list (map snd (p_chips d))) 2\<rparr>))"

section \<open>Archive naming check\<close>

text \<open>The search \<^verbatim>\<open>re.search(rf'(?:hw|homework)\s*{project_num}', s, re.IGNORECASE)\<close>:
  \<open>hw_num_at\<close> is a match starting at the head of the string.\<close>

definition hw_num_at :: "string \<Rightarrow> string \<Rightarrow> bool" where
  "hw_num_at num s =
     ((startswith (lower s) ''hw'' \<and> startswith (lstrip (drop 2 s)) num) \<or>
      (startswith (lower s) ''homework'' \<and> startswith (lstrip (drop 8 s)) num))"

fun hw_num_search :: "string \<Rightarrow> string \<Rightarrow> bool" where
  "hw_num_search num [] = False"
| "hw_num_search num (c # cs) = (hw_num_at num (c # cs) \<or> hw_num_search num cs)"

definition zip_name_no_ext :: "string \<Rightarrow> string" where
  "zip_name_no_ext filename =
     (if endswith (lower filename) ''.zip'' then take (length filename - 4) filename
      else filename)"

text \<open>The pair \<^verbatim>\<open>(first, last)\<close> built from the student name.\<close>

definition name_tokens :: "string \<Rightarrow> string \<times> string" where
  "name_tokens sname =
     (let name_parts = split_ws (strip sname)
      in if 2 \<le> length name_parts then (hd name_parts, last name_parts)
         else if length name_parts = 1 then (hd name_parts, '''')
         else (''Unknown'', ''Student''))"

definition expected_patterns :: "string \<Rightarrow> string \<Rightarrow> (int \<times> string) list" where
  "expected_patterns first lst =
     [(1, ''HW1_Gates_'' @ first @ ''_'' @ lst),
      (2, ''HW2_ALU_'' @ first @ ''_'' @ lst),
      (3, ''HW3_Memory_'' @ first @ ''_'' @ lst),
      (4, ''HW4_Assembly_'' @ first @ ''_'' @ lst),
      (5, ''HW5_Computer_'' @ first @ ''_'' @ lst)]"

definition expected_zip_name :: "int \<Rightarrow> string \<Rightarrow> string \<Rightarrow> string" where
  "expected_zip_name pn first lst =
     (case map_of (expected_patterns first lst) pn of
        Some e \<Rightarrow> e
      | None \<Rightarrow> ''HW'' @ show_int pn @ ''_'' @ first @ ''_'' @ lst)"

definition check_zip_naming :: "int \<Rightarrow> string \<Rightarrow> string \<Rightarrow> int \<Rightarrow> py_exn + ZipNaming" where
  "check_zip_naming active filename sname pn =
     (case get_project active (Some pn) of
        Inl e \<Rightarrow> Inl e
      | Inr proj \<Rightarrow>
          let pattern = p_zip_pattern proj
          in if filename = [] then
               Inr \<lparr>original_filename = '''', is_correct = False, expected_pattern = pattern,
                    zn_issue = ''No filename available''\<rparr>
             else
               let name_no_ext = zip_name_no_ext filename;
                   (first, lst) = name_tokens sname;
                   expct = expected_zip_name pn first lst
               in if name_no_ext = expct then
                    Inr \<lparr>original_filename = filename, is_correct = True,
                         expected_pattern = expct @ ''.zip'', zn_issue = ''''\<rparr>
                  else
                    let hw_num_present = hw_num_search (show_int pn) name_no_ext;
                        name_present =
                          (if lst \<noteq> [] then
                             contains (lower name_no_ext) (lower first) \<or>
                             contains (lower name_no_ext) (lower lst)
                           else contains (lower name_no_ext) (lower first));
                        issues = (if \<not> hw_num_present then [''missing homework number''] else [])
                               @ (if \<not> name_present then [''missing your name''] else []);
                        msg = ''Zip named '' @ quote @ filename @ quote @ '' -- should be ''
                               @ quote @ expct @ ''.zip'' @ quote
                               @ (if issues \<noteq> [] then '' ('' @ join '', '' issues @ '')'' else [])
                    in Inr \<lparr>original_filename = filename, is_correct = False,
                            expected_pattern = expct @ ''.zip'', zn_issue = msg\<rparr>)"

section \<open>File matching\<close>

text \<open>
  \<^verbatim>\<open>re.sub(pattern, '', s)\<close> for a pattern that never matches the empty string: scanning
  from the left, a match at the current position is deleted and the scan resumes behind it;
  otherwise the character is kept. \<open>m s\<close> is the length of the match at the head of \<open>s\<close>,
  and \<open>k\<close> counts the characters of a match still to be dropped.
\<close>

fun re_delete :: "(string \<Rightarrow> nat option) \<Rightarrow> nat \<Rightarrow> string \<Rightarrow> string" where
  "re_delete m k [] = []"
| "re_delete m k (c # cs) =
     (if 0 < k then re_delete m (k - 1) cs
      else (case m (c # cs) of
              Some n \<Rightarrow> re_delete m (n - 1) cs
            | None \<Rightarrow> c # re_delete m 0 cs))"

text \<open>The pattern \<^verbatim>\<open>\s*\(\d+\)\s*\<close> at the head of a string.\<close>

definition paren_counter_at :: "string \<Rightarrow> nat option" where
  "paren_counter_at s =
     (let ws = takeWhile is_space s; r = dropWhile is_space s
      in if startswith r ''('' then
           let ds = takeWhile is_digit (drop 1 r); r2 = dropWhile is_digit (drop 1 r)
           in if ds \<noteq> [] \<and> startswith r2 '')''
              then Some (length ws + 1 + length ds + 1 + length (takeWhile is_space (drop 1 r2)))
              else None
         else None)"

text \<open>The pattern \<^verbatim>\<open>\s*copy\s*\d*\<close>, ignoring case, at the head of a string.\<close>

definition copy_suffix_at :: "string \<Rightarrow> nat option" where
  "copy_suffix_at s =
     (let ws = takeWhile is_space s; r = dropWhile is_space s
      in if startswith (lower r) ''copy'' then
           let ws2 = takeWhile is_space (drop 4 r);
               ds = takeWhile is_digit (dropWhile is_space (drop 4 r))
           in Some (length ws + 4 + length ws2 + length ds)
         else None)"

definition strip_suffix_ci :: "string \<Rightarrow> string \<Rightarrow> string" where
  "strip_suffix_ci suf s =
     (if endswith (lower s) suf then take (length s - length suf) s else s)"

definition normalize :: "string \<Rightarrow> string" where
  "normalize nm =
     (let n1 = strip nm;
          n2 = re_delete paren_counter_at 0 n1;
          n3 = re_delete copy_suffix_at 0 n2;
          n4 = filter (\<lambda>c. \<not> (is_space c \<or> c = CHR ''_'' \<or> c = CHR ''-'')) n3;
          n5 = strip_suffix_ci ''.hdl'' n4;
          n6 = strip_suffix_ci ''.asm'' n5
      in lower n6)"

text \<open>
  The dictionary \<open>found\<close> maps base names to paths; it is kept as the list of its items
  in insertion order, which is the order Python iterates it in. The local variables of
  \<^verbatim>\<open>_match_files\<close> form the state of its loops.
\<close>

type_synonym found_files = "(string \<times> string) list"

record match_state =
  matched :: "string \<rightharpoonup> string"
  matches :: "FileMatch list"
  used :: "string set"
  remaining :: "string list"

definition mk_FileMatch :: "string \<Rightarrow> string \<Rightarrow> string \<Rightarrow> string \<Rightarrow> FileMatch" where
  "mk_FileMatch e a t i = \<lparr>expected_name = e, actual_filename = a, match_type = t, issue = i\<rparr>"

definition assumed_msg :: "string \<Rightarrow> string \<Rightarrow> string \<Rightarrow> string" where
  "assumed_msg orig e ext =
     ''Named '' @ quote @ orig @ ext @ quote @ '' -- assumed to be '' @ quote @ e @ ext @ quote"

text \<open>Pass 1: exact.\<close>

definition pass1_step :: "found_files \<Rightarrow> string \<Rightarrow> match_state \<Rightarrow> string \<Rightarrow> match_state" where
  "pass1_step found ext st e =
     (case map_of found e of
        Some path \<Rightarrow>
          st\<lparr>matched := (matched st)(e \<mapsto> path),
             used := insert e (used st),
             matches := matches st @ [mk_FileMatch e (e @ ext) ''exact'' '''']\<rparr>
      | None \<Rightarrow> st)"

text \<open>Pass 2: case insensitive; \<open>found_lower\<close> is built once, before the loop.\<close>

definition pass2_step ::
  "(string \<rightharpoonup> string \<times> string) \<Rightarrow> string \<Rightarrow> match_state \<Rightarrow> string \<Rightarrow> match_state" where
  "pass2_step found_lower ext st e =
     (case found_lower (lower e) of
        Some (orig, path) \<Rightarrow>
          st\<lparr>matched := (matched st)(e \<mapsto> path),
             used := insert orig (used st),
             remaining := remove1 e (remaining st),
             matches := matches st @
               [mk_FileMatch e (orig @ ext) ''case_fix''
                  (''Named '' @ quote @ orig @ ext @ quote @ '' instead of ''
                     @ quote @ e @ ext @ quote)]\<rparr>
      | None \<Rightarrow> st)"

text \<open>Pass 3: normalized.\<close>

definition pass3_step ::
  "(string \<rightharpoonup> string \<times> string) \<Rightarrow> string \<Rightarrow> match_state \<Rightarrow> string \<Rightarrow> match_state" where
  "pass3_step found_norm ext st e =
     (case found_norm (normalize e) of
        Some (orig, path) \<Rightarrow>
          if orig \<notin> used st then
            st\<lparr>matched := (matched st)(e \<mapsto> path),
               used := insert orig (used st),
               remaining := remove1 e (remaining st),
               matches := matches st @
                 [mk_FileMatch e (orig @ ext) ''fuzzy'' (assumed_msg orig e ext)]\<rparr>
          else st
      | None \<Rightarrow> st)"

text \<open>Pass 4: substring. \<open>best_step\<close> is one iteration of the inner loop over
  \<^verbatim>\<open>found.items()\<close>, with state \<^verbatim>\<open>(best, best_score)\<close>.\<close>

definition best_step ::
  "string \<Rightarrow> string set \<Rightarrow> (string \<times> string) option \<times> rat \<Rightarrow> string \<times> string
     \<Rightarrow> (string \<times> string) option \<times> rat" where
  "best_step exp_lower usd bs item =
     (case bs of (best, best_score) \<Rightarrow>
      case item of (nm, path) \<Rightarrow>
        if nm \<in> usd then (best, best_score)
        else
          let nl = lower nm
          in if contains nl exp_lower \<or> contains exp_lower nl then
               let score = of_nat (length exp_lower) / of_nat (max (length nl) 1)
               in if best_score < score then (Some (nm, path), score) else (best, best_score)
             else (best, best_score))"

definition pass4_step :: "found_files \<Rightarrow> string \<Rightarrow> match_state \<Rightarrow> string \<Rightarrow> match_state" where
  "pass4_step found ext st e =
     (case foldl (best_step (lower e) (used st)) (None, 0) found of
        (Some (orig, path), best_score) \<Rightarrow>
          if 4 / 10 < best_score then
            st\<lparr>matched := (matched st)(e \<mapsto> path),
               used := insert orig (used st),
               remaining := remove1 e (remaining st),
               matches := matches st @
                 [mk_FileMatch e (orig @ ext) ''fuzzy'' (assumed_msg orig e ext)]\<rparr>
          else st
      | (None, best_score) \<Rightarrow> st)"

definition not_found_match :: "string \<Rightarrow> string \<Rightarrow> FileMatch" where
  "not_found_match ext e =
     mk_FileMatch e '''' ''not_found'' (quote @ e @ ext @ quote @ '' not found in submission'')"

text \<open>The state after each of the four passes.\<close>

definition after_pass1 :: "found_files \<Rightarrow> string list \<Rightarrow> string \<Rightarrow> match_state" where
  "after_pass1 found expected_names ext =
     (let st = foldl (pass1_step found ext)
                 \<lparr>matched = Map.empty, matches = [], used = {}, remaining = []\<rparr> expected_names
      in st\<lparr>remaining := filter (\<lambda>n. matched st n = None) expected_names\<rparr>)"

definition after_pass2 :: "found_files \<Rightarrow> string list \<Rightarrow> string \<Rightarrow> match_state" where
  "after_pass2 found expected_names ext =
     (let st = after_pass1 found expected_names ext;
          found_lower = dict_of (map (\<lambda>(k, v). (lower k, (k, v)))
                                   (filter (\<lambda>(k, v). k \<notin> used st) found))
      in foldl (pass2_step found_lower ext) st (remaining st))"

definition after_pass3 :: "found_files \<Rightarrow> string list \<Rightarrow> string \<Rightarrow> match_state" where
  "after_pass3 found expected_names ext =
     (let st = after_pass2 found expected_names ext;
          found_norm = dict_of (map (\<lambda>(nm, path). (normalize nm, (nm, path))) found)
      in foldl (pass3_step found_norm ext) st (remaining st))"

definition after_pass4 :: "found_files \<Rightarrow> string list \<Rightarrow> string \<Rightarrow> match_state" where
  "after_pass4 found expected_names ext =
     (let st = after_pass3 found expected_names ext
      in foldl (pass4_step found ext) st (remaining st))"

definition match_files ::
  "found_files \<Rightarrow> string list \<Rightarrow> string
     \<Rightarrow> (string \<rightharpoonup> string) \<times> FileMatch list \<times> string list" where
  "match_files found expected_names ext =
     (let st = after_pass4 found expected_names ext;
          extra = map (\<lambda>(n, p). n @ ext) (filter (\<lambda>(n, p). n \<notin> used st) found)
      in (matched st, matches st @ map (not_found_match ext) (remaining st), extra))"

section \<open>The world outside the engine\<close>

text \<open>
  Temporary directories are numbered; the file system state is the next free number and
  the set of directories that exist. \<^verbatim>\<open>shutil.rmtree(d, ignore_errors=True)\<close> is taken to
  remove \<open>d\<close>.
\<close>

record fs =
  next_dir :: nat
  live_dirs :: "nat set"

text \<open>
  What \<^verbatim>\<open>zipfile.ZipFile(zip_path).extractall(tmp)\<close> followed by \<^verbatim>\<open>os.walk(tmp)\<close> yields:
  the files visited, each with its name and its joined path, in the order of the walk
  (hidden directories already pruned); or \<^verbatim>\<open>BadZipFile\<close>; or any other exception.
\<close>

datatype archive = Extracted "(string \<times> string) list" | BadZipFile | ExtractRaises py_exn

text \<open>What \<^verbatim>\<open>subprocess.run\<close> does: it returns \<open>stdout\<close> and \<open>stderr\<close>, or the timeout
  expires, or it raises another exception with the given message.\<close>

datatype sim_outcome = Completed string string | TimeoutExpired | SimRaises string

text \<open>
  Everything the engine reads from its environment. \<open>check_builtin\<close> and \<open>has_work\<close> are
  the results of \<^verbatim>\<open>_check_builtin(path)\<close> and \<^verbatim>\<open>_has_work(path, ext)\<close>, which read the
  student's file; the remaining fields are indexed by the component name: whether its test
  script exists, its comparison trace in the test directory, the message of an exception
  raised while the sandbox is filled (if any), the simulator run, and the two traces
  found in the sandbox after the run.
\<close>

record world =
  active_project :: int
  mkdtemp_fails :: "nat \<Rightarrow> bool"
  open_archive :: "string \<Rightarrow> archive"
  check_builtin :: "string \<Rightarrow> bool"
  has_work :: "string \<Rightarrow> string \<Rightarrow> bool"
  tst_exists :: "string \<Rightarrow> bool"
  tp_cmp :: "string \<Rightarrow> trace_file"
  setup_error :: "string \<Rightarrow> string option"
  simulate :: "string \<Rightarrow> sim_outcome"
  sb_cmp :: "string \<Rightarrow> trace_file"
  sb_out :: "string \<Rightarrow> trace_file"

definition mkdtemp :: "world \<Rightarrow> fs \<Rightarrow> py_exn + nat \<times> fs" where
  "mkdtemp w s =
     (if mkdtemp_fails w (next_dir s) then Inl (OSError ''mkdtemp'')
      else Inr (next_dir s,
                \<lparr>next_dir = next_dir s + 1, live_dirs = insert (next_dir s) (live_dirs s)\<rparr>))"

definition rmtree :: "nat \<Rightarrow> fs \<Rightarrow> fs" where
  "rmtree d s = s\<lparr>live_dirs := live_dirs s - {d}\<rparr>"

section \<open>Archive extraction\<close>

text \<open>
  The loop \<^verbatim>\<open>while name.lower().endswith(file_ext): name = name[:-len(file_ext)]\<close>.
  With an empty extension the source loop never ends; the model returns \<open>None\<close> then.
\<close>

function strip_ext :: "string \<Rightarrow> string \<Rightarrow> string option" where
  "strip_ext ext nm =
     (if endswith (lower nm) ext then
        (if ext = [] then None else strip_ext ext (take (length nm - length ext) nm))
      else Some nm)"
  by pat_completeness auto
termination
proof (relation "measure (\<lambda>(ext, nm). length nm)")
  show "wf (measure (\<lambda>(ext, nm). length nm))" by simp
next
  fix ext nm :: string
  assume e: "endswith (lower nm) ext" and n: "ext \<noteq> []"
  have "\<And>s p :: string. startswith s p \<Longrightarrow> length p \<le> length s"
  proof -
    fix s p :: string
    show "startswith s p \<Longrightarrow> length p \<le> length s"
      by (induction s p rule: startswith.induct) auto
  qed
  from this [of "rev (lower nm)" "rev ext"] e have "length ext \<le> length nm"
    by (simp add: endswith_def lower_def)
  with n have "length nm - length ext < length nm"
    by (cases ext) auto
  then show "((ext, take (length nm - length ext) nm), (ext, nm))
               \<in> measure (\<lambda>(ext, nm). length nm)"
    by simp
qed

declare strip_ext.simps [simp del]

text \<open>One file of the walk; \<open>None\<close> when the inner loop does not end.\<close>

definition found_step ::
  "string \<Rightarrow> found_files option \<Rightarrow> string \<times> string \<Rightarrow> found_files option" where
  "found_step ext acc item =
     (case acc of
        None \<Rightarrow> None
      | Some found \<Rightarrow>
          (case item of (f, path) \<Rightarrow>
             if startswith f ''.'' \<or> startswith f ''__'' then Some found
             else (case strip_ext ext f of
                     None \<Rightarrow> None
                   | Some nm \<Rightarrow>
                       if endswith (lower f) ext \<and> nm \<noteq> [] \<and> map_of found nm = None
                       then Some (found @ [(nm, path)])
                       else Some found)))"

text \<open>\<^verbatim>\<open>_extract_zip\<close>: \<open>None\<close> when it does not return, otherwise the new file system
  state with either the exception raised or \<^verbatim>\<open>(tmp, found)\<close>.\<close>

definition extract_zip ::
  "world \<Rightarrow> string \<Rightarrow> string \<Rightarrow> fs \<Rightarrow> (fs \<times> (py_exn + nat \<times> found_files)) option" where
  "extract_zip w zip_path ext s =
     (case mkdtemp w s of
        Inl e \<Rightarrow> Some (s, Inl e)
      | Inr (tmp, s1) \<Rightarrow>
          (case open_archive w zip_path of
             BadZipFile \<Rightarrow> Some (s1, Inr (tmp, []))
           | ExtractRaises e \<Rightarrow> Some (s1, Inl e)
           | Extracted files \<Rightarrow>
               (case foldl (found_step ext) (Some []) files of
                  None \<Rightarrow> None
                | Some found \<Rightarrow> Some (s1, Inr (tmp, found)))))"

section \<open>Running one component\<close>

definition clean_err :: "string \<Rightarrow> string" where
  "clean_err raw =
     (let ls = filter
                 (\<lambda>l. \<not> (l = [] \<or> startswith l ''at '' \<or> contains (lower l) ''java.'')
                      \<and> \<not> contains l ''Exception in thread'')
                 (map strip (split_on (CHR 0x0A) raw))
      in if ls \<noteq> [] then take 200 (join ''; '' (take 3 ls)) else ''Unknown error'')"

definition mk_ChipResult ::
  "string \<Rightarrow> bool \<Rightarrow> pyfloat \<Rightarrow> pyfloat \<Rightarrow> string \<Rightarrow> string \<Rightarrow> ChipResult" where
  "mk_ChipResult nm ps pts mx et em =
     \<lparr>name = nm, passed = ps, points = pts, max_points = mx, error_type = et, error_msg = em,
      fail_line = 0, expected = '''', actual = '''', total_tests = 0, passed_tests = 0\<rparr>"

text \<open>The two markers looked for in the simulator output.\<close>

definition has_success :: "string \<Rightarrow> bool" where
  "has_success out =
     (contains out ''Comparison ended successfully'' \<or>
      contains out ''End of script - Comparison ended successfully'')"

text \<open>\<^verbatim>\<open>re.search(r'[Cc]omparison failure at line (\d+)', out)\<close>.\<close>

definition cmp_failure_at :: "string \<Rightarrow> bool" where
  "cmp_failure_at s =
     (case s of
        [] \<Rightarrow> False
      | c # r \<Rightarrow>
          (c = CHR ''C'' \<or> c = CHR ''c'') \<and> startswith r ''omparison failure at line '' \<and>
          (case drop (length ''omparison failure at line '') r of
             [] \<Rightarrow> False
           | d # _ \<Rightarrow> is_digit d))"

fun has_cmp_failure :: "string \<Rightarrow> bool" where
  "has_cmp_failure [] = False"
| "has_cmp_failure (c # cs) = (cmp_failure_at (c # cs) \<or> has_cmp_failure cs)"

text \<open>The body of the \<^verbatim>\<open>try\<close> statement of \<^verbatim>\<open>_run_one\<close> together with its
  \<^verbatim>\<open>except\<close> clauses: it always yields a result.\<close>

definition run_in_sandbox :: "world \<Rightarrow> string \<Rightarrow> pyfloat \<Rightarrow> bool \<Rightarrow> ChipResult" where
  "run_in_sandbox w chip mx work =
     (case setup_error w chip of
        Some msg \<Rightarrow> mk_ChipResult chip False 0 mx ''internal'' (take 150 msg)
      | None \<Rightarrow>
          (case simulate w chip of
             TimeoutExpired \<Rightarrow>
               mk_ChipResult chip False (if work then py_round (mx * (1 / 10)) 2 else 0) mx
                 ''timeout'' ''Timed out (possible loop)''
           | SimRaises msg \<Rightarrow> mk_ChipResult chip False 0 mx ''internal'' (take 150 msg)
           | Completed sout serr \<Rightarrow>
               let out = strip (sout @ [CHR 0x0A] @ serr)
               in if has_success out then
                    (case tp_cmp w chip of
                       Unreadable msg \<Rightarrow>
                         mk_ChipResult chip False 0 mx ''internal'' (take 150 msg)
                     | Missing \<Rightarrow>
                         (mk_ChipResult chip True mx mx ''pass'' '''')
                           \<lparr>total_tests := 0, passed_tests := 0\<rparr>
                     | Content ls \<Rightarrow>
                         (mk_ChipResult chip True mx mx ''pass'' '''')
                           \<lparr>total_tests := length ls - 1, passed_tests := length ls - 1\<rparr>)
                  else if has_cmp_failure out then
                    (case partial_credit (sb_cmp w chip) (sb_out w chip) mx of
                       (p, ps, tt, fl, fe, fa) \<Rightarrow>
                         \<lparr>name = chip, passed = False, points = p, max_points = mx,
                          error_type = ''mismatch'',
                          error_msg = show_nat ps @ ''/'' @ show_nat tt
                            @ '' tests passed (first fail line '' @ show_nat fl @ '')'',
                          fail_line = fl, expected = fe, actual = fa,
                          total_tests = tt, passed_tests = ps\<rparr>)
                  else
                    let ce = clean_err out
                    in if work then
                         mk_ChipResult chip False (py_round (mx * (15 / 100)) 2) mx ''syntax''
                           (''Syntax error (effort credit): '' @ ce)
                       else mk_ChipResult chip False 0 mx ''syntax'' ce))"

text \<open>\<^verbatim>\<open>_run_one\<close>: the exception of a failed \<^verbatim>\<open>mkdtemp\<close> is raised outside the
  \<^verbatim>\<open>try\<close> statement and leaves the function.\<close>

definition run_one ::
  "world \<Rightarrow> string \<Rightarrow> (string \<rightharpoonup> string) \<Rightarrow> project \<Rightarrow> fs \<Rightarrow> fs \<times> (py_exn + ChipResult)" where
  "run_one w chip mtch proj s =
     (let mx = (case p_chip_points proj chip of Some v \<Rightarrow> v | None \<Rightarrow> 1);
          ext = p_file_ext proj
      in case mtch chip of
           None \<Rightarrow> (s, Inr (mk_ChipResult chip False 0 mx ''missing'' ''Not submitted''))
         | Some path \<Rightarrow>
             if ext = ''.hdl'' \<and> check_builtin w path then
               (s, Inr (mk_ChipResult chip False 0 mx ''builtin'' ''Uses BUILTIN (not allowed)''))
             else
               let work = has_work w path ext
               in if \<not> tst_exists w chip then
                    (s, Inr (mk_ChipResult chip False 0 mx ''internal'' (chip @ ''.tst not found'')))
                  else
                    (case mkdtemp w s of
                       Inl e \<Rightarrow> (s, Inl e)
                     | Inr (sb, s1) \<Rightarrow> (rmtree sb s1, Inr (run_in_sandbox w chip mx work))))"

definition cascades :: "ChipResult list \<Rightarrow> (string \<rightharpoonup> string list) \<Rightarrow> string list" where
  "cascades results deps =
     (let failed = map name (filter (\<lambda>c. \<not> passed c) results)
      in if failed = [] then []
         else concat (map (\<lambda>c.
                if name c \<notin> set failed then []
                else
                  let bd = filter (\<lambda>d. d \<in> set failed)
                             (case deps (name c) of Some ds \<Rightarrow> ds | None \<Rightarrow> [])
                  in if bd \<noteq> [] then
                       [name c @ '' likely fails because '' @ join '', '' bd @ '' also broken'']
                     else []) results))"

section \<open>The pipeline\<close>

text \<open>The loop over the components: it appends each result and adds its points to
  \<^verbatim>\<open>total_earned\<close>; an exception leaving \<^verbatim>\<open>_run_one\<close> ends it.\<close>

fun run_chips ::
  "world \<Rightarrow> (string \<rightharpoonup> string) \<Rightarrow> project \<Rightarrow> string list \<Rightarrow> ChipResult list \<times> pyfloat \<Rightarrow> fs
     \<Rightarrow> fs \<times> (py_exn + ChipResult list \<times> pyfloat)" where
  "run_chips w mtch proj [] acc s = (s, Inr acc)"
| "run_chips w mtch proj (c # cs) acc s =
     (case run_one w c mtch proj s of
        (s', Inl e) \<Rightarrow> (s', Inl e)
      | (s', Inr cr) \<Rightarrow> run_chips w mtch proj cs (fst acc @ [cr], snd acc + points cr) s')"

text \<open>The results of the branch for an empty \<open>raw\<close>; \<^verbatim>\<open>pts[c]\<close> raises on a missing key.\<close>

fun missing_chips ::
  "(string \<rightharpoonup> pyfloat) \<Rightarrow> string \<Rightarrow> string list \<Rightarrow> py_exn + ChipResult list" where
  "missing_chips pts ext [] = Inr []"
| "missing_chips pts ext (c # cs) =
     (case pts c of
        None \<Rightarrow> Inl (KeyError c)
      | Some mx \<Rightarrow>
          (case missing_chips pts ext cs of
             Inl e \<Rightarrow> Inl e
           | Inr rs \<Rightarrow>
               Inr (mk_ChipResult c False 0 mx ''missing''
                      (''No '' @ ext @ '' files in submission'') # rs)))"

definition is_fixed :: "FileMatch \<Rightarrow> bool" where
  "is_fixed m = (match_type m = ''case_fix'' \<or> match_type m = ''fuzzy'')"

text \<open>The body of the \<^verbatim>\<open>try\<close> statement of \<^verbatim>\<open>grade_student\<close>.\<close>

definition grade_body ::
  "world \<Rightarrow> project \<Rightarrow> string \<Rightarrow> int \<Rightarrow> string \<Rightarrow> found_files \<Rightarrow> fs
     \<Rightarrow> fs \<times> (py_exn + GradingResult)" where
  "grade_body w proj sname uid zip_filename raw s =
     (let chip_list = p_chip_names proj; pts = p_chip_points proj; ext = p_file_ext proj;
          deps = dict_of (p_deps proj);
          result = \<lparr>student_name = sname, user_id = uid, project_num = p_number proj,
                    chips = [], total_earned = 0, total_possible = p_total_points proj,
                    warnings = [], file_matches = [], extra_files = [], zip_naming = None\<rparr>
      in case check_zip_naming (active_project w) zip_filename sname (p_number proj) of
           Inl e \<Rightarrow> (s, Inl e)
         | Inr zn \<Rightarrow>
             if raw = [] then
               (case missing_chips pts ext chip_list of
                  Inl e \<Rightarrow> (s, Inl e)
                | Inr rs \<Rightarrow>
                    (s, Inr (result\<lparr>zip_naming := Some zn,
                               warnings := [''No '' @ ext @ '' files found in zip''],
                               chips := rs,
                               file_matches :=
                                 map (\<lambda>c. mk_FileMatch c '''' ''not_found''
                                            (''No '' @ ext @ '' files in zip'')) chip_list\<rparr>)))
             else
               (case match_files raw chip_list ext of
                  (mtch, fmatches, extra) \<Rightarrow>
                    let fixed = length (filter is_fixed fmatches);
                        naming = (if 0 < fixed
                                  then map (\<lambda>m. ''Naming: '' @ issue m) (filter is_fixed fmatches)
                                  else [])
                    in case run_chips w mtch proj chip_list ([], 0) s of
                         (s', Inl e) \<Rightarrow> (s', Inl e)
                       | (s', Inr (crs, tot)) \<Rightarrow>
                           (s', Inr (result\<lparr>zip_naming := Some zn,
                                       file_matches := fmatches,
                                       extra_files := extra,
                                       chips := crs,
                                       total_earned := py_round tot 2,
                                       warnings := naming @ cascades crs deps\<rparr>))))"

text \<open>
  \<^verbatim>\<open>grade_student\<close>: \<open>None\<close> when the call does not return; otherwise the file system it
  leaves behind and either the exception that leaves the call or the result returned.
  The \<^verbatim>\<open>finally\<close> clause removes \<open>tmp\<close> whatever the body does.
\<close>

definition grade_student ::
  "world \<Rightarrow> string \<Rightarrow> string \<Rightarrow> int \<Rightarrow> int option \<Rightarrow> string \<Rightarrow> fs
     \<Rightarrow> (fs \<times> (py_exn + GradingResult)) option" where
  "grade_student w zip_path sname uid pn zip_filename s =
     (case get_project (active_project w) pn of
        Inl e \<Rightarrow> Some (s, Inl e)
      | Inr proj \<Rightarrow>
          (case extract_zip w zip_path (p_file_ext proj) s of
             None \<Rightarrow> None
           | Some (s1, Inl e) \<Rightarrow> Some (s1, Inl e)
           | Some (s1, Inr (tmp, raw)) \<Rightarrow>
               (case grade_body w proj sname uid zip_filename raw s1 of
                  (s2, res) \<Rightarrow> Some (rmtree tmp s2, res))))"

section \<open>Scenarios used to exercise the theorems\<close>

text \<open>Project 4 (\<open>Mult\<close>, \<open>Fill\<close>): the simulator times out on \<open>Mult\<close> and reports a
  syntax error for \<open>Fill\<close>, whose source shows no work.\<close>

definition demo_world :: world where
  "demo_world =
     \<lparr>active_project = 4,
      mkdtemp_fails = (\<lambda>_. False),
      open_archive = (\<lambda>_. Extracted [(''Mult.asm'', ''/t/Mult.asm''), (''fill.asm'', ''/t/fill.asm'')]),
      check_builtin = (\<lambda>_. False),
      has_work = (\<lambda>path _. path = ''/t/Mult.asm''),
      tst_exists = (\<lambda>_. True),
      tp_cmp = (\<lambda>_. Content [''|h|'', ''|1|'', ''|2|'']),
      setup_error = (\<lambda>_. None),
      simulate = (\<lambda>c. if c = ''Mult'' then TimeoutExpired
                       else Completed '''' ''In line 3, expression expected''),
      sb_cmp = (\<lambda>_. Missing),
      sb_out = (\<lambda>_. Missing)\<rparr>"

text \<open>The part of a result the score consists of.\<close>

definition scores :: "GradingResult \<Rightarrow> pyfloat list \<times> pyfloat \<times> pyfloat" where
  "scores r = (map points (chips r), total_earned r, total_possible r)"

text \<open>Variants of the scenario: the archive is encrypted, the disk is full during
  extraction, the archive is not a zip file, the simulator cannot be started.\<close>

definition encrypted_world :: world where
  "encrypted_world =
     demo_world\<lparr>open_archive :=
       (\<lambda>_. ExtractRaises (RuntimeError ''File is encrypted, password required for extraction''))\<rparr>"

definition full_disk_world :: world where
  "full_disk_world =
     demo_world\<lparr>open_archive := (\<lambda>_. ExtractRaises (OSError ''No space left on device''))\<rparr>"

definition bad_zip_world :: world where
  "bad_zip_world = demo_world\<lparr>open_archive := (\<lambda>_. BadZipFile)\<rparr>"

definition broken_sim_world :: world where
  "broken_sim_world = demo_world\<lparr>simulate := (\<lambda>_. SimRaises ''Permission denied'')\<rparr>"


text \<open>Found files for the substring pass.\<close>

definition fuzzy_found :: found_files where
  "fuzzy_found = [(''MyXorGateFinal'', ''/t/MyXorGateFinal.hdl''), (''XorGate'', ''/t/XorGate.hdl''),
                  (''My_Or (1)'', ''/t/My_Or (1).hdl'')]"

section \<open>Notions used in the statements\<close>

text \<open>The candidates of pass 4 for the expected name \<open>e\<close> and the ratio it maximises.\<close>

definition fuzzy_candidates :: "found_files \<Rightarrow> string set \<Rightarrow> string \<Rightarrow> found_files" where
  "fuzzy_candidates found usd e =
     filter (\<lambda>(nm, path). nm \<notin> usd \<and>
               (contains (lower nm) (lower e) \<or> contains (lower e) (lower nm))) found"

definition length_ratio :: "string \<Rightarrow> string \<Rightarrow> rat" where
  "length_ratio e nm = of_nat (length e) / of_nat (length nm)"

text \<open>No match recorded by a pass has the type \<open>not_found\<close>.\<close>

definition no_not_found :: "match_state \<Rightarrow> bool" where
  "no_not_found st = (list_all (\<lambda>m. match_type m \<noteq> ''not_found'') (matches st))"

text \<open>An amount of points that is a non-negative multiple of 0.01, the maximum of a
  component, and what every entry of \<open>PROJECTS\<close> satisfies.\<close>

definition cents :: "pyfloat \<Rightarrow> bool" where
  "cents v \<longleftrightarrow> 0 \<le> v \<and> v * 100 \<in> \<int>"

definition mx_of :: "project \<Rightarrow> string \<Rightarrow> pyfloat" where
  "mx_of proj chip = (case p_chip_points proj chip of Some v \<Rightarrow> v | None \<Rightarrow> 1)"

definition project_ok :: "project_def \<Rightarrow> bool" where
  "project_ok d \<longleftrightarrow>
     distinct (map fst (p_chips d)) \<and> list_all (\<lambda>(c, v). cents v) (p_chips d) \<and>
     p_file_ext d \<noteq> []"

text \<open>Every existing temporary directory has a number below the next free one.\<close>

definition fs_ok :: "fs \<Rightarrow> bool" where
  "fs_ok s = (\<forall>d \<in> live_dirs s. d < next_dir s)"

section \<open>Results\<close>









subsection \<open>Facts about the configuration\<close>

lemma get_project_fields:
  assumes "get_project a pn = Inr proj"
  shows "p_chip_names proj = map fst (p_chips proj)"
    and "p_chip_points proj = dict_of (p_chips proj)"
    and "p_total_points proj = py_round (sum_list (map snd (p_chips proj))) 2"
  using assms
  by (auto simp: get_project_def Let_def project_def.defs project.defs split: option.splits)

lemma get_project_again:
  assumes "get_project a pn = Inr proj"
  shows "get_project a (Some (p_number proj)) = Inr proj"
proof -
  have z: "map_of PROJECTS 0 = None" by (simp add: PROJECTS_def)
  from assms show ?thesis
    using z by (auto simp: get_project_def Let_def project_def.defs split: option.splits if_splits)
qed

lemma check_zip_naming_returns:
  assumes "get_project a pn = Inr proj"
  shows "\<exists>zn. check_zip_naming a fn sn (p_number proj) = Inr zn"
  by (simp add: check_zip_naming_def get_project_again [OF assms] Let_def split: prod.split)

lemma dict_of_key: "k \<in> fst ` set kvs \<Longrightarrow> dict_of kvs k \<noteq> None"
  by (simp add: dict_of_def map_of_eq_None_iff)

lemma missing_chips_returns:
  "(\<And>c. c \<in> set cs \<Longrightarrow> pts c \<noteq> None) \<Longrightarrow>
   \<exists>rs. missing_chips pts ext cs = Inr rs \<and> map name rs = cs \<and>
        (\<forall>r\<in>set rs. error_type r = ''missing'' \<and> points r = 0 \<and>
           pts (name r) = Some (max_points r))"
proof (induction cs)
  case Nil
  then show ?case by simp
next
  case (Cons c cs)
  then obtain rs where rs: "missing_chips pts ext cs = Inr rs" "map name rs = cs"
      "\<forall>r\<in>set rs. error_type r = ''missing'' \<and> points r = 0 \<and> pts (name r) = Some (max_points r)"
    by auto
  from Cons.prems obtain mx where mx: "pts c = Some mx" by auto
  show ?case using rs mx by (simp add: mk_ChipResult_def)
qed

lemma expected_zip_name_nonempty: "expected_zip_name pn f l \<noteq> []"
proof -
  have "pn = 1 \<or> pn = 2 \<or> pn = 3 \<or> pn = 4 \<or> pn = 5 \<or> map_of (expected_patterns f l) pn = None"
    by (auto simp: expected_patterns_def)
  then show ?thesis
    by (auto simp: expected_zip_name_def expected_patterns_def)
qed

lemma project4: "get_project 4 None = Inr (projr (get_project 4 None))"
  "p_chip_names (projr (get_project 4 None)) = [''Mult'', ''Fill'']"
  by (simp_all add: get_project_def PROJECTS_def project_def.defs)

subsection \<open>The naming check\<close>

lemma grade_body_scores:
  assumes "get_project (active_project w) pn = Inr proj"
  shows "map_prod id (map_sum id scores) (grade_body w proj sn uid zf1 raw s) =
         map_prod id (map_sum id scores) (grade_body w proj sn uid zf2 raw s)"
proof -
  obtain zn1 where 1: "check_zip_naming (active_project w) zf1 sn (p_number proj) = Inr zn1"
    using check_zip_naming_returns [OF assms] by blast
  obtain zn2 where 2: "check_zip_naming (active_project w) zf2 sn (p_number proj) = Inr zn2"
    using check_zip_naming_returns [OF assms] by blast
  show ?thesis
    by (simp add: grade_body_def 1 2 Let_def scores_def split: sum.split prod.split)
qed

text \<open>
  Claim C9. Two calls of \<^verbatim>\<open>grade_student\<close> that differ only in the archive filename
  handed to the naming check end alike: both do not return, or both raise the same
  exception, or both return results with the same points per component, the same
  \<open>total_earned\<close> and the same \<open>total_possible\<close>.
\<close>

theorem naming_never_affects_score:
  "map_option (map_prod id (map_sum id scores)) (grade_student w zp sn uid pn zf1 s) =
   map_option (map_prod id (map_sum id scores)) (grade_student w zp sn uid pn zf2 s)"
proof (cases "get_project (active_project w) pn")
  case (Inl e)
  then show ?thesis by (simp add: grade_student_def)
next
  case (Inr proj)
  show ?thesis
  proof (cases "extract_zip w zp (p_file_ext proj) s")
    case None
    with Inr show ?thesis by (simp add: grade_student_def)
  next
    case (Some x)
    obtain s1 res where x: "x = (s1, res)" by (cases x)
    show ?thesis
    proof (cases res)
      case (Inl e)
      with Inr Some x show ?thesis by (simp add: grade_student_def)
    next
      case r: (Inr y)
      obtain tmp raw where y: "y = (tmp, raw)" by (cases y)
      have "map_prod id (map_sum id scores) (grade_body w proj sn uid zf1 raw s1) =
            map_prod id (map_sum id scores) (grade_body w proj sn uid zf2 raw s1)"
        by (rule grade_body_scores [OF Inr])
      then show ?thesis
        using Inr Some x r y
        by (cases "grade_body w proj sn uid zf1 raw s1"; cases "grade_body w proj sn uid zf2 raw s1")
           (simp add: grade_student_def)
    qed
  qed
qed

text \<open>The same submission under a conforming and a non-conforming archive name.\<close>

theorem naming_never_affects_score_witness:
  "map_option (map_prod id (map_sum id scores))
     (grade_student demo_world ''s.zip'' ''Ada Love'' 7 None ''HW4_Assembly_Ada_Love.zip''
        \<lparr>next_dir = 0, live_dirs = {}\<rparr>) =
   map_option (map_prod id (map_sum id scores))
     (grade_student demo_world ''s.zip'' ''Ada Love'' 7 None ''homework.zip''
        \<lparr>next_dir = 0, live_dirs = {}\<rparr>)"
  by (rule naming_never_affects_score)

text \<open>
  Claim C8, as the code has it. For a student name of a single token \<open>t\<close> the expected
  archive name is built with \<open>first = t\<close> and an empty \<open>last\<close> (for project 1,
  \<open>HW1_Gates_t_\<close>); for a name without tokens the placeholders \<open>Unknown\<close> and \<open>Student\<close>
  are used. The flag \<open>is_correct\<close> holds exactly when the archive filename without a
  trailing \<open>.zip\<close> (in any case) equals the expected name.
\<close>

theorem zip_naming_canonical:
  assumes "check_zip_naming a fn sn pn = Inr zn"
  shows "(fn \<noteq> [] \<and> split_ws (strip sn) = [t] \<longrightarrow>
            expected_pattern zn = expected_zip_name pn t '''' @ ''.zip'') \<and>
         (fn \<noteq> [] \<and> split_ws (strip sn) = [] \<longrightarrow>
            expected_pattern zn = expected_zip_name pn ''Unknown'' ''Student'' @ ''.zip'') \<and>
         (is_correct zn \<longleftrightarrow>
            zip_name_no_ext fn =
              expected_zip_name pn (fst (name_tokens sn)) (snd (name_tokens sn)))"
proof -
  have e: "zip_name_no_ext [] = []"
    by (simp add: zip_name_no_ext_def endswith_def lower_def)
  obtain f l where t: "name_tokens sn = (f, l)" by (cases "name_tokens sn")
  have t1: "split_ws (strip sn) = [t] \<Longrightarrow> f = t \<and> l = []"
    using t by (simp add: name_tokens_def Let_def)
  have t0: "split_ws (strip sn) = [] \<Longrightarrow> f = ''Unknown'' \<and> l = ''Student''"
    using t by (simp add: name_tokens_def Let_def)
  from assms show ?thesis
    using t t0 t1 e expected_zip_name_nonempty [of pn f l]
    by (auto simp: check_zip_naming_def Let_def split: sum.splits if_splits)
qed

theorem zip_naming_canonical_witness:
  "split_ws (strip ''  Bob '') = [''Bob''] \<and>
   map_sum id expected_pattern (check_zip_naming 1 ''HW1_Gates_Bob_.ZIP'' ''  Bob '' 1)
     = Inr ''HW1_Gates_Bob_.zip'' \<and>
   map_sum id is_correct (check_zip_naming 1 ''HW1_Gates_Bob_.ZIP'' ''  Bob '' 1) = Inr True \<and>
   split_ws (strip []) = [] \<and>
   map_sum id expected_pattern (check_zip_naming 1 ''hw3.zip'' [] 3)
     = Inr ''HW3_Memory_Unknown_Student.zip'' \<and>
   map_sum id is_correct (check_zip_naming 1 ''hw3.zip'' [] 3) = Inr False"
proof -
  have c1: "check_zip_naming 1 ''HW1_Gates_Bob_.ZIP'' ''  Bob '' 1 =
      Inr \<lparr>original_filename = ''HW1_Gates_Bob_.ZIP'', is_correct = True,
           expected_pattern = ''HW1_Gates_Bob_.zip'', zn_issue = []\<rparr>"
    by code_simp
  have c2: "check_zip_naming 1 ''hw3.zip'' [] 3 =
      Inr \<lparr>original_filename = ''hw3.zip'', is_correct = False,
           expected_pattern = ''HW3_Memory_Unknown_Student.zip'',
           zn_issue = ''Zip named '' @ quote @ ''hw3.zip'' @ quote @ '' -- should be ''
             @ quote @ ''HW3_Memory_Unknown_Student.zip'' @ quote @ '' (missing your name)''\<rparr>"
    by code_simp
  have t1: "split_ws (strip ''  Bob '') = [''Bob'']" by code_simp
  have t2: "split_ws (strip []) = []" by code_simp
  have e1: "expected_zip_name 1 ''Bob'' [] = ''HW1_Gates_Bob_''" by code_simp
  have e2: "expected_zip_name 3 ''Unknown'' ''Student'' = ''HW3_Memory_Unknown_Student''"
    by code_simp
  show ?thesis
    using zip_naming_canonical [OF c1, of "''Bob''"] zip_naming_canonical [OF c2, of "''x''"]
      t1 t2 e1 e2
    by (simp add: c1 c2)
qed

text \<open>
  Claim C8 as stated fails: for the student \<open>Bob\<close> the archive \<open>HW1_Gates_Bob_Bob.zip\<close>,
  which is the canonical name with \<open>first = last = Bob\<close>, is flagged incorrect, and the
  expected name reported is \<open>HW1_Gates_Bob_.zip\<close>.
\<close>

theorem zip_naming_single_token_counterexample:
  "split_ws (strip ''Bob'') = [''Bob''] \<and>
   zip_name_no_ext ''HW1_Gates_Bob_Bob.zip'' = expected_zip_name 1 ''Bob'' ''Bob'' \<and>
   map_sum id is_correct (check_zip_naming 1 ''HW1_Gates_Bob_Bob.zip'' ''Bob'' 1) = Inr False \<and>
   map_sum id expected_pattern (check_zip_naming 1 ''HW1_Gates_Bob_Bob.zip'' ''Bob'' 1)
     = Inr ''HW1_Gates_Bob_.zip''"
  by code_simp

subsection \<open>Exceptions and temporary directories\<close>

text \<open>
  Claim C6, as the code has it. \<^verbatim>\<open>grade_student\<close> has no handler of its own: an exception
  of the project lookup or of the archive extraction (other than \<^verbatim>\<open>BadZipFile\<close>) leaves the
  call. Degenerate results arise in two places only: an unreadable archive
  (\<^verbatim>\<open>BadZipFile\<close>) yields a result with every component \<open>missing\<close> and a zero total, and
  an exception inside the guarded part of a component run yields an \<open>internal\<close> component
  result with zero points.
\<close>

theorem grade_student_exceptions:
  "(get_project (active_project w) pn = Inl e \<longrightarrow>
      grade_student w zp sn uid pn zf s = Some (s, Inl e)) \<and>
   (get_project (active_project w) pn = Inr proj \<and> \<not> mkdtemp_fails w (next_dir s) \<and>
    open_archive w zp = ExtractRaises e \<longrightarrow>
      (\<exists>s'. grade_student w zp sn uid pn zf s = Some (s', Inl e))) \<and>
   (get_project (active_project w) pn = Inr proj \<and> \<not> mkdtemp_fails w (next_dir s) \<and>
    open_archive w zp = BadZipFile \<longrightarrow>
      (\<exists>s' r. grade_student w zp sn uid pn zf s = Some (s', Inr r) \<and> total_earned r = 0 \<and>
         map name (chips r) = p_chip_names proj \<and>
         (\<forall>c\<in>set (chips r). error_type c = ''missing'' \<and> points c = 0))) \<and>
   (setup_error w chip = Some msg \<or> (setup_error w chip = None \<and> simulate w chip = SimRaises msg) \<longrightarrow>
      error_type (run_in_sandbox w chip mx work) = ''internal'' \<and>
      points (run_in_sandbox w chip mx work) = 0)"
proof -
  have a: "get_project (active_project w) pn = Inl e \<longrightarrow>
      grade_student w zp sn uid pn zf s = Some (s, Inl e)"
    by (simp add: grade_student_def)
  have b: "get_project (active_project w) pn = Inr proj \<and> \<not> mkdtemp_fails w (next_dir s) \<and>
      open_archive w zp = ExtractRaises e \<longrightarrow>
      (\<exists>s'. grade_student w zp sn uid pn zf s = Some (s', Inl e))"
    by (simp add: grade_student_def extract_zip_def mkdtemp_def)
  have c: "\<exists>s' r. grade_student w zp sn uid pn zf s = Some (s', Inr r) \<and> total_earned r = 0 \<and>
         map name (chips r) = p_chip_names proj \<and>
         (\<forall>c\<in>set (chips r). error_type c = ''missing'' \<and> points c = 0)"
    if h: "get_project (active_project w) pn = Inr proj \<and> \<not> mkdtemp_fails w (next_dir s) \<and>
      open_archive w zp = BadZipFile"
  proof -
    from h have p: "get_project (active_project w) pn = Inr proj" by simp
    obtain zn where zn: "check_zip_naming (active_project w) zf sn (p_number proj) = Inr zn"
      using check_zip_naming_returns [OF p] by blast
    have k: "\<And>c. c \<in> set (p_chip_names proj) \<Longrightarrow> p_chip_points proj c \<noteq> None"
      by (simp add: get_project_fields [OF p] dict_of_key)
    have "\<exists>rs. missing_chips (p_chip_points proj) (p_file_ext proj) (p_chip_names proj) = Inr rs \<and>
        map name rs = p_chip_names proj \<and>
        (\<forall>r\<in>set rs. error_type r = ''missing'' \<and> points r = 0 \<and>
           p_chip_points proj (name r) = Some (max_points r))"
      by (rule missing_chips_returns) (rule k)
    then obtain rs where
        rs: "missing_chips (p_chip_points proj) (p_file_ext proj) (p_chip_names proj) = Inr rs"
          "map name rs = p_chip_names proj"
          "\<forall>r\<in>set rs. error_type r = ''missing'' \<and> points r = 0"
      by auto
    show ?thesis
      using h rs zn
      by (simp add: grade_student_def extract_zip_def mkdtemp_def grade_body_def Let_def)
  qed
  have d: "setup_error w chip = Some msg \<or>
      (setup_error w chip = None \<and> simulate w chip = SimRaises msg) \<longrightarrow>
      error_type (run_in_sandbox w chip mx work) = ''internal'' \<and>
      points (run_in_sandbox w chip mx work) = 0"
    by (auto simp: run_in_sandbox_def mk_ChipResult_def)
  show ?thesis
    using a b c d by blast
qed

theorem grade_student_exceptions_witness:
  "grade_student demo_world ''s.zip'' ''Ada Love'' 7 (Some 9) ''x.zip'' \<lparr>next_dir = 0, live_dirs = {}\<rparr>
     = Some (\<lparr>next_dir = 0, live_dirs = {}\<rparr>, Inl (ValueError ''Project 9 not defined'')) \<and>
   (\<exists>s'. grade_student encrypted_world ''s.zip'' ''Ada Love'' 7 None ''x.zip''
            \<lparr>next_dir = 0, live_dirs = {}\<rparr>
     = Some (s', Inl (RuntimeError ''File is encrypted, password required for extraction''))) \<and>
   (\<exists>s' r. grade_student bad_zip_world ''s.zip'' ''Ada Love'' 7 None ''x.zip''
            \<lparr>next_dir = 0, live_dirs = {}\<rparr> = Some (s', Inr r) \<and>
        total_earned r = 0 \<and> map name (chips r) = [''Mult'', ''Fill''] \<and>
        map error_type (chips r) = [''missing'', ''missing''] \<and> map points (chips r) = [0, 0]) \<and>
   error_type (run_in_sandbox broken_sim_world ''Mult'' 5 True) = ''internal'' \<and>
   points (run_in_sandbox broken_sim_world ''Mult'' 5 True) = 0"
proof -
  let ?s = "\<lparr>next_dir = 0, live_dirs = {}\<rparr>"
  let ?p = "projr (get_project 4 None)"
  have n: "show_int 9 = ''9''"
    by code_simp
  have a: "get_project (active_project demo_world) (Some 9) = Inl (ValueError ''Project 9 not defined'')"
    by (simp add: get_project_def PROJECTS_def n)
  have b: "get_project (active_project encrypted_world) None = Inr ?p \<and>
      \<not> mkdtemp_fails encrypted_world (next_dir ?s) \<and>
      open_archive encrypted_world ''s.zip'' =
        ExtractRaises (RuntimeError ''File is encrypted, password required for extraction'')"
    using project4 by (simp add: encrypted_world_def demo_world_def)
  have c: "get_project (active_project bad_zip_world) None = Inr ?p \<and>
      \<not> mkdtemp_fails bad_zip_world (next_dir ?s) \<and> open_archive bad_zip_world ''s.zip'' = BadZipFile"
    using project4 by (simp add: bad_zip_world_def demo_world_def)
  have d: "setup_error broken_sim_world ''Mult'' = Some ''Permission denied'' \<or>
      (setup_error broken_sim_world ''Mult'' = None \<and>
       simulate broken_sim_world ''Mult'' = SimRaises ''Permission denied'')"
    by (simp add: broken_sim_world_def demo_world_def)
  have 1: "grade_student demo_world ''s.zip'' ''Ada Love'' 7 (Some 9) ''x.zip'' ?s
      = Some (?s, Inl (ValueError ''Project 9 not defined''))"
    using grade_student_exceptions [where w = demo_world and pn = "Some 9"
        and e = "ValueError ''Project 9 not defined''" and s = ?s] a
    by blast
  have 2: "\<exists>s'. grade_student encrypted_world ''s.zip'' ''Ada Love'' 7 None ''x.zip'' ?s
      = Some (s', Inl (RuntimeError ''File is encrypted, password required for extraction''))"
    using grade_student_exceptions [where w = encrypted_world and pn = None and proj = ?p
        and e = "RuntimeError ''File is encrypted, password required for extraction''"
        and s = ?s and zp = "''s.zip''"] b
    by blast
  have 3: "\<exists>s' r. grade_student bad_zip_world ''s.zip'' ''Ada Love'' 7 None ''x.zip'' ?s
        = Some (s', Inr r) \<and> total_earned r = 0 \<and> map name (chips r) = p_chip_names ?p \<and>
        (\<forall>c\<in>set (chips r). error_type c = ''missing'' \<and> points c = 0)"
    using grade_student_exceptions [where w = bad_zip_world and pn = None and proj = ?p
        and s = ?s and zp = "''s.zip''"] c
    by blast
  have 4: "error_type (run_in_sandbox broken_sim_world ''Mult'' 5 True) = ''internal'' \<and>
      points (run_in_sandbox broken_sim_world ''Mult'' 5 True) = 0"
    using grade_student_exceptions [where w = broken_sim_world and chip = "''Mult''"
        and msg = "''Permission denied''"] d
    by blast
  from 3 obtain s' r where r: "grade_student bad_zip_world ''s.zip'' ''Ada Love'' 7 None ''x.zip'' ?s
        = Some (s', Inr r)" "total_earned r = 0" "map name (chips r) = [''Mult'', ''Fill'']"
        "\<forall>c\<in>set (chips r). error_type c = ''missing'' \<and> points c = 0"
    using project4 by auto
  from r(3) obtain c1 c2 where "chips r = [c1, c2]" by auto
  with r have m: "map error_type (chips r) = [''missing'', ''missing''] \<and> map points (chips r) = [0, 0]"
    by simp
  have 5: "\<exists>s' r. grade_student bad_zip_world ''s.zip'' ''Ada Love'' 7 None ''x.zip'' ?s
        = Some (s', Inr r) \<and> total_earned r = 0 \<and> map name (chips r) = [''Mult'', ''Fill''] \<and>
        map error_type (chips r) = [''missing'', ''missing''] \<and> map points (chips r) = [0, 0]"
    using r(1,2,3) m by (intro exI [of _ s'] exI [of _ r]) simp
  show ?thesis
    by (rule conjI [OF 1 conjI [OF 2 conjI [OF 5 4]]])
qed

text \<open>
  Claim C6 as stated fails: when extraction raises for an encrypted archive, the call
  ends with that exception and returns no result.
\<close>

theorem grade_student_raises_counterexample:
  "grade_student encrypted_world ''s.zip'' ''Ada Love'' 7 None ''HW4_Assembly_Ada_Love.zip''
       \<lparr>next_dir = 0, live_dirs = {}\<rparr> =
     Some (\<lparr>next_dir = 1, live_dirs = {0}\<rparr>,
           Inl (RuntimeError ''File is encrypted, password required for extraction''))"
  by code_simp

text \<open>
  Where temporary directories survive a call: nowhere, except for the extraction
  directory when extraction raises something other than \<^verbatim>\<open>BadZipFile\<close>. The sandbox of a
  component never survives \<^verbatim>\<open>_run_one\<close>.
\<close>

lemma mkdtemp_rmtree:
  assumes "fs_ok s" and "mkdtemp w s = Inr (d, s1)"
  shows "rmtree d s1 = s\<lparr>next_dir := next_dir s + 1\<rparr>"
    and "live_dirs s1 = insert (next_dir s) (live_dirs s)"
    and "next_dir s1 = next_dir s + 1"
proof -
  from assms(2) have d: "d = next_dir s"
      and s1: "s1 = \<lparr>next_dir = next_dir s + 1, live_dirs = insert (next_dir s) (live_dirs s)\<rparr>"
    by (auto simp: mkdtemp_def split: if_splits)
  from assms(1) have "next_dir s \<notin> live_dirs s"
    by (auto simp: fs_ok_def)
  then show "rmtree d s1 = s\<lparr>next_dir := next_dir s + 1\<rparr>"
    by (simp add: rmtree_def d s1)
  show "live_dirs s1 = insert (next_dir s) (live_dirs s)" by (simp add: s1)
  show "next_dir s1 = next_dir s + 1" by (simp add: s1)
qed

lemma run_one_dirs:
  assumes "fs_ok s" and "run_one w c mtch proj s = (s', res)"
  shows "live_dirs s' = live_dirs s \<and> next_dir s \<le> next_dir s'"
proof (cases "mkdtemp w s")
  case (Inl e)
  with assms(2) show ?thesis
    by (auto simp: run_one_def Let_def split: option.splits if_splits)
next
  case (Inr x)
  obtain d s1 where x: "x = (d, s1)" by (cases x)
  from mkdtemp_rmtree(1) [OF assms(1) Inr [unfolded x]]
  have r: "live_dirs (rmtree d s1) = live_dirs s" "next_dir (rmtree d s1) = next_dir s + 1"
    by simp_all
  from assms(2) Inr x show ?thesis
    by (auto simp: run_one_def Let_def r split: option.splits if_splits)
qed

lemma run_chips_dirs:
  assumes "fs_ok s" and "run_chips w mtch proj cs acc s = (s', res)"
  shows "live_dirs s' = live_dirs s \<and> next_dir s \<le> next_dir s'"
  using assms
proof (induction cs arbitrary: acc s)
  case Nil
  then show ?case by simp
next
  case (Cons c cs)
  obtain s1 r1 where r1: "run_one w c mtch proj s = (s1, r1)"
    by (cases "run_one w c mtch proj s")
  from run_one_dirs [OF Cons.prems(1) r1]
  have d: "live_dirs s1 = live_dirs s" "next_dir s \<le> next_dir s1" by simp_all
  show ?case
  proof (cases r1)
    case (Inl e)
    with Cons.prems(2) r1 d show ?thesis by simp
  next
    case (Inr cr)
    from Cons.prems(1) d have ok: "fs_ok s1" by (fastforce simp: fs_ok_def)
    from Cons.prems(2) r1 Inr
    have "run_chips w mtch proj cs (fst acc @ [cr], snd acc + points cr) s1 = (s', res)"
      by simp
    from Cons.IH [OF ok this] d show ?thesis by simp
  qed
qed

lemma grade_body_dirs:
  assumes "fs_ok s" and "grade_body w proj sn uid zf raw s = (s', res)"
  shows "live_dirs s' = live_dirs s"
proof -
  obtain mtch fmatches extra where m: "match_files raw (p_chip_names proj) (p_file_ext proj)
      = (mtch, fmatches, extra)"
    by (cases "match_files raw (p_chip_names proj) (p_file_ext proj)")
  obtain s1 r1 where rc: "run_chips w mtch proj (p_chip_names proj) ([], 0) s = (s1, r1)"
    by (cases "run_chips w mtch proj (p_chip_names proj) ([], 0) s")
  from run_chips_dirs [OF assms(1) rc] have "live_dirs s1 = live_dirs s" by simp
  with assms(2) m rc show ?thesis
    by (auto simp: grade_body_def Let_def split: sum.splits if_splits prod.splits)
qed

lemma temp_dirs_removed:
  assumes "fs_ok s" and "grade_student w zp sn uid pn zf s = Some (s', res)"
  shows "live_dirs s' = live_dirs s \<or>
         (\<exists>proj e. get_project (active_project w) pn = Inr proj \<and>
            \<not> mkdtemp_fails w (next_dir s) \<and> open_archive w zp = ExtractRaises e \<and>
            res = Inl e \<and> live_dirs s' = insert (next_dir s) (live_dirs s))"
proof (cases "get_project (active_project w) pn")
  case (Inl e)
  with assms(2) show ?thesis by (simp add: grade_student_def)
next
  case (Inr proj)
  show ?thesis
  proof (cases "mkdtemp w s")
    case (Inl e)
    with assms(2) Inr show ?thesis
      by (simp add: grade_student_def extract_zip_def)
  next
    case mk: (Inr x)
    obtain tmp s1 where x: "x = (tmp, s1)" by (cases x)
    note mk = mk [unfolded x]
    from mk have nf: "\<not> mkdtemp_fails w (next_dir s)"
      by (auto simp: mkdtemp_def split: if_splits)
    note t = mkdtemp_rmtree [OF assms(1) mk]
    have ok1: "fs_ok s1"
      using assms(1) t(2,3) by (fastforce simp: fs_ok_def)
    have tmp: "tmp = next_dir s"
      using mk by (auto simp: mkdtemp_def split: if_splits)
    have rm: "\<And>s2. live_dirs s2 = live_dirs s1 \<Longrightarrow> live_dirs (rmtree tmp s2) = live_dirs s"
      using assms(1) by (auto simp: rmtree_def t(2) tmp fs_ok_def)
    show ?thesis
    proof (cases "open_archive w zp")
      case (ExtractRaises e)
      with assms(2) Inr mk nf t(2) show ?thesis
        by (auto simp: grade_student_def extract_zip_def)
    next
      case BadZipFile
      obtain s2 r2 where g: "grade_body w proj sn uid zf [] s1 = (s2, r2)"
        by (cases "grade_body w proj sn uid zf [] s1")
      from grade_body_dirs [OF ok1 g] rm have "live_dirs (rmtree tmp s2) = live_dirs s"
        by simp
      with assms(2) Inr mk BadZipFile g show ?thesis
        by (auto simp: grade_student_def extract_zip_def)
    next
      case (Extracted files)
      show ?thesis
      proof (cases "foldl (found_step (p_file_ext proj)) (Some []) files")
        case None
        with assms(2) Inr mk Extracted show ?thesis
          by (simp add: grade_student_def extract_zip_def)
      next
        case (Some raw)
        obtain s2 r2 where g: "grade_body w proj sn uid zf raw s1 = (s2, r2)"
          by (cases "grade_body w proj sn uid zf raw s1")
        from grade_body_dirs [OF ok1 g] rm have "live_dirs (rmtree tmp s2) = live_dirs s"
          by simp
        with assms(2) Inr mk Extracted Some g show ?thesis
          by (auto simp: grade_student_def extract_zip_def)
      qed
    qed
  qed
qed

text \<open>
  Claim C7 fails on the code: \<^verbatim>\<open>_extract_zip\<close> creates the extraction directory before
  the \<^verbatim>\<open>try\<close> statement of \<^verbatim>\<open>grade_student\<close> is entered, so when extraction raises
  anything but \<^verbatim>\<open>BadZipFile\<close> (here: no space left on the device) the call ends with the
  exception and the directory \<open>0\<close> it created still exists.
\<close>

theorem extraction_dir_leak:
  "map_option (\<lambda>(s', r). (live_dirs s', isl r))
     (grade_student full_disk_world ''s.zip'' ''Ada Love'' 7 (Some 4) ''HW4_Assembly_Ada_Love.zip''
        \<lparr>next_dir = 0, live_dirs = {}\<rparr>) = Some ({0}, True)"
  by code_simp

subsection \<open>File matching\<close>

lemma foldl_invariant:
  assumes "P st" and "\<And>st x. P st \<Longrightarrow> P (f st x)"
  shows "P (foldl f st xs)"
  using assms(1) by (induction xs arbitrary: st) (simp_all add: assms(2))

lemma length_lower [simp]: "length (lower s) = length s"
  by (simp add: lower_def)

lemma best_step_score:
  assumes "nm \<noteq> []"
  shows "best_step (lower e) usd (b, s) (nm, path) =
     (if (nm, path) \<in> set (fuzzy_candidates [(nm, path)] usd e) \<and> s < length_ratio e nm
      then (Some (nm, path), length_ratio e nm) else (b, s))"
proof -
  have "max (length nm) 1 = length nm"
    using assms by (cases nm) auto
  then show ?thesis
    by (auto simp: best_step_def fuzzy_candidates_def length_ratio_def Let_def)
qed

lemma best_fold:
  assumes "\<forall>(nm, path) \<in> set found. nm \<noteq> []"
  shows "case foldl (best_step (lower e) usd) (b, s) found of (b', s') \<Rightarrow>
           s \<le> s' \<and>
           (\<forall>c \<in> set (fuzzy_candidates found usd e). length_ratio e (fst c) \<le> s') \<and>
           ((b', s') = (b, s) \<or>
            (\<exists>c \<in> set (fuzzy_candidates found usd e). b' = Some c \<and> s' = length_ratio e (fst c)))"
  using assms
proof (induction found arbitrary: b s)
  case Nil
  then show ?case by (simp add: fuzzy_candidates_def)
next
  case (Cons x found)
  obtain nm path where x: "x = (nm, path)" by (cases x)
  from Cons.prems have nm: "nm \<noteq> []" and rest: "\<forall>(nm, path) \<in> set found. nm \<noteq> []"
    by (auto simp: x)
  let ?q = "(nm, path) \<in> set (fuzzy_candidates [(nm, path)] usd e)"
  have cands: "fuzzy_candidates (x # found) usd e =
      (if ?q then [(nm, path)] else []) @ fuzzy_candidates found usd e"
    by (simp add: fuzzy_candidates_def x)
  define q where "q \<longleftrightarrow> ?q \<and> s < length_ratio e nm"
  have bs: "best_step (lower e) usd (b, s) (nm, path) =
      (if q then (Some (nm, path), length_ratio e nm) else (b, s))"
    unfolding q_def by (rule best_step_score [OF nm])
  show ?case
  proof (cases q)
    case True
    then have q: "?q" "s < length_ratio e nm" by (simp_all add: q_def)
    obtain b' s' where f: "foldl (best_step (lower e) usd) (Some (nm, path), length_ratio e nm) found
        = (b', s')"
      by (cases "foldl (best_step (lower e) usd) (Some (nm, path), length_ratio e nm) found")
    from Cons.IH [OF rest, where b = "Some (nm, path)" and s = "length_ratio e nm"] f
    have ih: "length_ratio e nm \<le> s'"
        "\<forall>c \<in> set (fuzzy_candidates found usd e). length_ratio e (fst c) \<le> s'"
        "(b', s') = (Some (nm, path), length_ratio e nm) \<or>
         (\<exists>c \<in> set (fuzzy_candidates found usd e). b' = Some c \<and> s' = length_ratio e (fst c))"
      by auto
    have step: "foldl (best_step (lower e) usd) (b, s) (x # found) = (b', s')"
      using True f by (simp add: x bs)
    show ?thesis
      unfolding step using q ih by (auto simp: cands)
  next
    case False
    obtain b' s' where f: "foldl (best_step (lower e) usd) (b, s) found = (b', s')"
      by (cases "foldl (best_step (lower e) usd) (b, s) found")
    from Cons.IH [OF rest, where b = b and s = s] f
    have ih: "s \<le> s'"
        "\<forall>c \<in> set (fuzzy_candidates found usd e). length_ratio e (fst c) \<le> s'"
        "(b', s') = (b, s) \<or>
         (\<exists>c \<in> set (fuzzy_candidates found usd e). b' = Some c \<and> s' = length_ratio e (fst c))"
      by auto
    have step: "foldl (best_step (lower e) usd) (b, s) (x # found) = (b', s')"
      using False f by (simp add: x bs)
    from False have nq: "?q \<Longrightarrow> length_ratio e nm \<le> s" by (auto simp: q_def)
    show ?thesis
      unfolding step using nq ih by (auto simp: cands)
  qed
qed

lemma pass_steps_no_not_found:
  "no_not_found st \<Longrightarrow> no_not_found (pass1_step found ext st e)"
  "no_not_found st \<Longrightarrow> no_not_found (pass2_step fl ext st e)"
  "no_not_found st \<Longrightarrow> no_not_found (pass3_step fn ext st e)"
  "no_not_found st \<Longrightarrow> no_not_found (pass4_step found ext st e)"
  by (auto simp: no_not_found_def pass1_step_def pass2_step_def pass3_step_def pass4_step_def
        mk_FileMatch_def split: option.splits prod.splits)

lemma after_pass4_no_not_found: "no_not_found (after_pass4 found names ext)"
proof -
  have 1: "no_not_found (after_pass1 found names ext)"
  proof -
    have "no_not_found (foldl (pass1_step found ext)
        \<lparr>matched = Map.empty, matches = [], used = {}, remaining = []\<rparr> names)"
      by (rule foldl_invariant) (simp_all add: no_not_found_def pass_steps_no_not_found [unfolded no_not_found_def])
    then show ?thesis by (simp add: after_pass1_def Let_def no_not_found_def)
  qed
  have 2: "no_not_found (after_pass2 found names ext)"
    unfolding after_pass2_def Let_def
    by (rule foldl_invariant) (simp_all add: 1 pass_steps_no_not_found)
  have 3: "no_not_found (after_pass3 found names ext)"
    unfolding after_pass3_def Let_def
    by (rule foldl_invariant) (simp_all add: 2 pass_steps_no_not_found)
  show ?thesis
    unfolding after_pass4_def Let_def
    by (rule foldl_invariant) (simp_all add: 3 pass_steps_no_not_found)
qed

lemma strip_ext_returns: "ext \<noteq> [] \<Longrightarrow> strip_ext ext nm \<noteq> None"
proof (induction ext nm rule: strip_ext.induct)
  case (1 ext nm)
  then show ?case
    by (subst strip_ext.simps) simp
qed

lemma found_step_names:
  assumes "ext \<noteq> []" and "\<forall>(nm, path) \<in> set found. nm \<noteq> []"
  shows "\<exists>found'. found_step ext (Some found) item = Some found' \<and>
           (\<forall>(nm, path) \<in> set found'. nm \<noteq> [])"
proof -
  obtain f path where i: "item = (f, path)" by (cases item)
  from strip_ext_returns [OF assms(1), of f] obtain nm where "strip_ext ext f = Some nm"
    by auto
  then show ?thesis
    using assms(2) by (auto simp: found_step_def i)
qed

lemma found_fold_names:
  assumes "ext \<noteq> []" and "\<forall>(nm, path) \<in> set found. nm \<noteq> []"
  shows "\<exists>found'. foldl (found_step ext) (Some found) files = Some found' \<and>
           (\<forall>(nm, path) \<in> set found'. nm \<noteq> [])"
  using assms(2)
proof (induction files arbitrary: found)
  case Nil
  then show ?case by simp
next
  case (Cons item files)
  from found_step_names [OF assms(1) Cons.prems, of item] obtain f1 where
    f1: "found_step ext (Some found) item = Some f1" "\<forall>(nm, path) \<in> set f1. nm \<noteq> []"
    by blast
  from Cons.IH [OF f1(2)] show ?case by (simp add: f1(1))
qed

lemma extract_zip_returns:
  assumes "ext \<noteq> []"
  shows "\<exists>s1 res. extract_zip w zp ext s = Some (s1, res) \<and>
           (\<forall>tmp found. res = Inr (tmp, found) \<longrightarrow> (\<forall>(nm, path) \<in> set found. nm \<noteq> []))"
proof (cases "mkdtemp w s")
  case (Inl e)
  then show ?thesis by (simp add: extract_zip_def)
next
  case (Inr x)
  obtain tmp s1 where x: "x = (tmp, s1)" by (cases x)
  show ?thesis
  proof (cases "open_archive w zp")
    case (Extracted files)
    have "\<exists>found'. foldl (found_step ext) (Some []) files = Some found' \<and>
           (\<forall>(nm, path) \<in> set found'. nm \<noteq> [])"
      by (rule found_fold_names [OF assms]) simp
    then obtain found' where "foldl (found_step ext) (Some []) files = Some found'"
        "\<forall>(nm, path) \<in> set found'. nm \<noteq> []"
      by blast
    then show ?thesis
      using Inr x Extracted by (simp add: extract_zip_def)
  next
    case BadZipFile
    then show ?thesis using Inr x by (simp add: extract_zip_def)
  next
    case (ExtractRaises e)
    then show ?thesis using Inr x by (simp add: extract_zip_def)
  qed
qed

text \<open>
  Claim C5. For an expected name \<open>e\<close> that pass 4 processes in state \<open>st\<close> (pass 4 runs over
  the names still in \<open>remaining\<close> after passes 1 to 3), the candidates are exactly the found
  files not yet used whose lower-cased name contains the lower-cased \<open>e\<close> or is contained
  in it. Either one of them is assigned, and then its ratio \<open>len(e) / len(found)\<close> is
  maximal among the candidates and exceeds 0.4; or no candidate has a ratio above 0.4 and
  the state is unchanged, so \<open>e\<close> stays in \<open>remaining\<close>. The names left in \<open>remaining\<close> after
  pass 4 are exactly those recorded as \<open>not_found\<close>. Found names are non-empty, as
  \<^verbatim>\<open>_extract_zip\<close> guarantees (\<open>extract_zip_returns\<close>).
\<close>

theorem pass4_fuzzy_substring:
  assumes "\<forall>(nm, path) \<in> set found. nm \<noteq> []"
  shows "((\<exists>orig path.
            (orig, path) \<in> set (fuzzy_candidates found (used st) e) \<and>
            (\<forall>c \<in> set (fuzzy_candidates found (used st) e).
                length_ratio e (fst c) \<le> length_ratio e orig) \<and>
            4 / 10 < length_ratio e orig \<and>
            pass4_step found ext st e =
              st\<lparr>matched := (matched st)(e \<mapsto> path),
                 used := insert orig (used st),
                 remaining := remove1 e (remaining st),
                 matches := matches st @
                   [mk_FileMatch e (orig @ ext) ''fuzzy'' (assumed_msg orig e ext)]\<rparr>) \<or>
          ((\<forall>c \<in> set (fuzzy_candidates found (used st) e). length_ratio e (fst c) \<le> 4 / 10) \<and>
           pass4_step found ext st e = st)) \<and>
         after_pass4 found names ext =
           foldl (pass4_step found ext) (after_pass3 found names ext)
             (remaining (after_pass3 found names ext)) \<and>
         map expected_name
           (filter (\<lambda>m. match_type m = ''not_found'') (fst (snd (match_files found names ext))))
           = remaining (after_pass4 found names ext)"
proof -
  obtain b' s' where f: "foldl (best_step (lower e) (used st)) (None, 0) found = (b', s')"
    by (cases "foldl (best_step (lower e) (used st)) (None, 0) found")
  let ?C = "fuzzy_candidates found (used st) e"
  from best_fold [OF assms, where e = e and usd = "used st" and b = None and s = 0] f
  have le: "\<forall>c \<in> set ?C. length_ratio e (fst c) \<le> s'"
    and or: "(b', s') = (None, 0) \<or> (\<exists>c \<in> set ?C. b' = Some c \<and> s' = length_ratio e (fst c))"
    by auto
  have step: "(\<exists>orig path.
            (orig, path) \<in> set ?C \<and>
            (\<forall>c \<in> set ?C. length_ratio e (fst c) \<le> length_ratio e orig) \<and>
            4 / 10 < length_ratio e orig \<and>
            pass4_step found ext st e =
              st\<lparr>matched := (matched st)(e \<mapsto> path),
                 used := insert orig (used st),
                 remaining := remove1 e (remaining st),
                 matches := matches st @
                   [mk_FileMatch e (orig @ ext) ''fuzzy'' (assumed_msg orig e ext)]\<rparr>) \<or>
          ((\<forall>c \<in> set ?C. length_ratio e (fst c) \<le> 4 / 10) \<and> pass4_step found ext st e = st)"
  proof (cases "b' \<noteq> None \<and> 4 / 10 < s'")
    case True
    with or obtain orig path where c: "(orig, path) \<in> set ?C" "b' = Some (orig, path)"
        "s' = length_ratio e orig"
      by auto
    have "pass4_step found ext st e =
              st\<lparr>matched := (matched st)(e \<mapsto> path),
                 used := insert orig (used st),
                 remaining := remove1 e (remaining st),
                 matches := matches st @
                   [mk_FileMatch e (orig @ ext) ''fuzzy'' (assumed_msg orig e ext)]\<rparr>"
      using True c by (simp add: pass4_step_def f)
    with c le True show ?thesis by blast
  next
    case False
    have "s' \<le> 4 / 10"
    proof (cases b')
      case None
      with or show ?thesis by auto
    next
      case (Some c)
      with False show ?thesis by simp
    qed
    with le have "\<forall>c \<in> set ?C. length_ratio e (fst c) \<le> 4 / 10"
      by fastforce
    moreover have "pass4_step found ext st e = st"
      using False by (auto simp: pass4_step_def f split: option.splits)
    ultimately show ?thesis by blast
  qed
  have loop: "after_pass4 found names ext =
           foldl (pass4_step found ext) (after_pass3 found names ext)
             (remaining (after_pass3 found names ext))"
    by (simp add: after_pass4_def Let_def)
  have "filter (\<lambda>m. match_type m = ''not_found'') (matches (after_pass4 found names ext)) = []"
    using after_pass4_no_not_found [of found names ext]
    by (simp add: no_not_found_def list_all_iff filter_empty_conv)
  then have final: "map expected_name
           (filter (\<lambda>m. match_type m = ''not_found'') (fst (snd (match_files found names ext))))
           = remaining (after_pass4 found names ext)"
    by (simp add: match_files_def Let_def not_found_match_def mk_FileMatch_def comp_def)
  from step loop final show ?thesis by blast
qed

text \<open>Two candidates contain \<open>Xor\<close>; the shorter one has ratio 3/7 and is taken. The best
  candidate for \<open>Or\<close> has ratio 2/7, so \<open>Or\<close> is reported as not found.\<close>

theorem pass4_fuzzy_substring_witness:
  "used (pass4_step fuzzy_found ''.hdl'' (after_pass3 fuzzy_found [''Xor'', ''Or''] ''.hdl'') ''Xor'')
     = {''XorGate''} \<and>
   remaining (pass4_step fuzzy_found ''.hdl'' (after_pass3 fuzzy_found [''Xor'', ''Or''] ''.hdl'')
     ''Xor'') = [''Or''] \<and>
   pass4_step fuzzy_found ''.hdl'' (after_pass3 fuzzy_found [''Xor'', ''Or''] ''.hdl'') ''Or''
     = after_pass3 fuzzy_found [''Xor'', ''Or''] ''.hdl'' \<and>
   map expected_name (filter (\<lambda>m. match_type m = ''not_found'')
       (fst (snd (match_files fuzzy_found [''Xor'', ''Or''] ''.hdl'')))) = [''Or'']"
proof -
  let ?st = "after_pass3 fuzzy_found [''Xor'', ''Or''] ''.hdl''"
  have ne: "\<forall>(nm, path) \<in> set fuzzy_found. nm \<noteq> []"
    by (simp add: fuzzy_found_def)
  have st: "used ?st = {}" "remaining ?st = [''Xor'', ''Or'']"
    by code_simp+
  have cx: "fuzzy_candidates fuzzy_found {} ''Xor'' =
      [(''MyXorGateFinal'', ''/t/MyXorGateFinal.hdl''), (''XorGate'', ''/t/XorGate.hdl'')]"
    by code_simp
  have co: "fuzzy_candidates fuzzy_found {} ''Or'' =
      [(''MyXorGateFinal'', ''/t/MyXorGateFinal.hdl''), (''XorGate'', ''/t/XorGate.hdl''),
       (''My_Or (1)'', ''/t/My_Or (1).hdl'')]"
    by code_simp
  have r: "length_ratio ''Xor'' ''MyXorGateFinal'' = 3 / 14" "length_ratio ''Xor'' ''XorGate'' = 3 / 7"
    "length_ratio ''Or'' ''MyXorGateFinal'' = 2 / 14" "length_ratio ''Or'' ''XorGate'' = 2 / 7"
    "length_ratio ''Or'' ''My_Or (1)'' = 2 / 9"
    by (simp_all add: length_ratio_def)
  have fin: "remaining (after_pass4 fuzzy_found [''Xor'', ''Or''] ''.hdl'') = [''Or'']"
    by code_simp
  note x = pass4_fuzzy_substring [OF ne, of ?st "''Xor''" "''.hdl''" "[''Xor'', ''Or'']"]
  note y = pass4_fuzzy_substring [OF ne, of ?st "''Or''" "''.hdl''" "[''Xor'', ''Or'']"]
  have 1: "used (pass4_step fuzzy_found ''.hdl'' ?st ''Xor'') = {''XorGate''} \<and>
      remaining (pass4_step fuzzy_found ''.hdl'' ?st ''Xor'') = [''Or'']"
    using x by (auto simp: st cx r)
  have 2: "pass4_step fuzzy_found ''.hdl'' ?st ''Or'' = ?st"
    using y by (auto simp: st co r)
  have 3: "map expected_name (filter (\<lambda>m. match_type m = ''not_found'')
       (fst (snd (match_files fuzzy_found [''Xor'', ''Or''] ''.hdl'')))) = [''Or'']"
    using x fin by simp
  from 1 2 3 show ?thesis by simp
qed


subsection \<open>Points\<close>













lemma projects_ok:
  assumes "map_of PROJECTS n = Some d"
  shows "project_ok d"
proof -
  have "n = 1 \<or> n = 2 \<or> n = 3 \<or> n = 4 \<or> n = 5"
    using assms by (auto simp: PROJECTS_def split: if_splits)
  then show ?thesis
    using assms
    by (elim disjE; clarsimp simp: PROJECTS_def project_ok_def cents_def)
qed

lemma dict_of_distinct:
  assumes "distinct (map fst kvs)" and "(k, v) \<in> set kvs"
  shows "dict_of kvs k = Some v"
proof -
  have "distinct (map fst (rev kvs))" using assms(1) by (simp add: rev_map [symmetric])
  moreover have "(k, v) \<in> set (rev kvs)" using assms(2) by simp
  ultimately show ?thesis
    unfolding dict_of_def by (rule map_of_is_SomeI)
qed

lemma get_project_cases:
  assumes "get_project a pn = Inr proj"
  obtains d n where "map_of PROJECTS n = Some d" and "p_chips proj = p_chips d"
    and "p_file_ext proj = p_file_ext d"
  using assms
  by (auto simp: get_project_def Let_def project_def.defs split: option.splits)

lemma get_project_ok:
  assumes "get_project a pn = Inr proj"
  shows "map (mx_of proj) (p_chip_names proj) = map snd (p_chips proj)"
    and "\<forall>c \<in> set (p_chip_names proj). cents (mx_of proj c)"
    and "list_all (\<lambda>(c, v). cents v) (p_chips proj)"
    and "p_file_ext proj \<noteq> []"
proof -
  from assms obtain d n where d: "map_of PROJECTS n = Some d" "p_chips proj = p_chips d"
      "p_file_ext proj = p_file_ext d"
    by (rule get_project_cases)
  from projects_ok [OF d(1)] have ok: "distinct (map fst (p_chips proj))"
      "list_all (\<lambda>(c, v). cents v) (p_chips proj)" "p_file_ext proj \<noteq> []"
    by (simp_all add: project_ok_def d)
  have look: "\<And>k v. (k, v) \<in> set (p_chips proj) \<Longrightarrow> mx_of proj k = v"
    by (simp add: mx_of_def get_project_fields [OF assms] dict_of_distinct [OF ok(1)])
  show "map (mx_of proj) (p_chip_names proj) = map snd (p_chips proj)"
    by (auto simp: get_project_fields [OF assms] look)
  show "\<forall>c \<in> set (p_chip_names proj). cents (mx_of proj c)"
    using ok(2) by (auto simp: get_project_fields [OF assms] look list_all_iff)
  show "list_all (\<lambda>(c, v). cents v) (p_chips proj)" by (rule ok)
  show "p_file_ext proj \<noteq> []" by (rule ok)
qed


lemma grade_student_returns: "\<exists>y. grade_student w zp sn uid pn zf s = Some y"
proof (cases "get_project (active_project w) pn")
  case (Inl e)
  then show ?thesis by (simp add: grade_student_def)
next
  case (Inr proj)
  have "p_file_ext proj \<noteq> []" by (rule get_project_ok(4) [OF Inr])
  from extract_zip_returns [OF this, of w zp s] obtain s1 res where
    "extract_zip w zp (p_file_ext proj) s = Some (s1, res)"
    by blast
  then show ?thesis
    using Inr by (simp add: grade_student_def split: sum.split prod.split)
qed




end
